theory Spec2Isabelle
  imports Main
begin

section \<open>Strings and paths\<close>

text \<open>
  The program is a Node.js script (\<^verbatim>\<open>x4build.mjs\<close>). JavaScript strings are modelled as
  \<^typ>\<open>string\<close>; the calls into Node's \<^verbatim>\<open>node:path\<close> module are modelled after its POSIX
  implementation (separator \<^verbatim>\<open>/\<close>), working on the list of segments between separators.
\<close>

definition startsWith :: "string \<Rightarrow> string \<Rightarrow> bool" where
  \<comment> \<open>\<^verbatim>\<open>s.startsWith(p)\<close>\<close>
  "startsWith s p = (take (length p) s = p)"

definition substring :: "string \<Rightarrow> nat \<Rightarrow> string" where
  \<comment> \<open>\<^verbatim>\<open>s.substring(n)\<close>\<close>
  "substring s n = drop n s"

fun split_sep :: "string \<Rightarrow> string list" where
  "split_sep [] = [[]]"
| "split_sep (c # cs) =
     (if c = CHR ''/'' then [] # split_sep cs
      else (c # hd (split_sep cs)) # tl (split_sep cs))"

fun join_sep :: "string list \<Rightarrow> string" where
  "join_sep [] = []"
| "join_sep [s] = s"
| "join_sep (s # t # ss) = s @ CHR ''/'' # join_sep (t # ss)"

definition normalize_seg :: "bool \<Rightarrow> string list \<Rightarrow> string \<Rightarrow> string list" where
  \<comment> \<open>one segment of \<^verbatim>\<open>normalizeString\<close>: empty and \<^verbatim>\<open>.\<close> segments are skipped, \<^verbatim>\<open>..\<close> removes
      the segment before it, unless there is none or it is \<^verbatim>\<open>..\<close> itself\<close>
  "normalize_seg allowAboveRoot res seg =
     (if seg = [] \<or> seg = ''.'' then res
      else if seg = ''..'' then
        (if res \<noteq> [] \<and> last res \<noteq> ''..'' then butlast res
         else if allowAboveRoot then res @ [''..''] else res)
      else res @ [seg])"

definition normalizeString :: "string \<Rightarrow> bool \<Rightarrow> string list" where
  "normalizeString path allowAboveRoot =
     foldl (normalize_seg allowAboveRoot) [] (split_sep path)"

definition isAbsolute :: "string \<Rightarrow> bool" where
  "isAbsolute path = (path \<noteq> [] \<and> hd path = CHR ''/'')"

definition path_normalize :: "string \<Rightarrow> string" where
  \<comment> \<open>\<^verbatim>\<open>path.normalize\<close>\<close>
  "path_normalize path =
     (if path = [] then ''.''
      else
        let trailingSeparator = (last path = CHR ''/'');
            res = join_sep (normalizeString path (\<not> isAbsolute path))
        in if res = [] then
             (if isAbsolute path then ''/'' else if trailingSeparator then ''./'' else ''.'')
           else (if isAbsolute path then ''/'' else []) @ res
                  @ (if trailingSeparator then ''/'' else []))"

definition path_join :: "string \<Rightarrow> string \<Rightarrow> string" where
  \<comment> \<open>\<^verbatim>\<open>path.join(a, b)\<close>: empty arguments are skipped, the rest is joined by \<^verbatim>\<open>/\<close> and
      normalized\<close>
  "path_join a b =
     (if a = [] \<and> b = [] then ''.''
      else if a = [] then path_normalize b
      else if b = [] then path_normalize a
      else path_normalize (a @ CHR ''/'' # b))"

definition path_basename :: "string \<Rightarrow> string" where
  \<comment> \<open>\<^verbatim>\<open>path.basename\<close>: trailing separators are dropped, then what follows the last
      separator is taken\<close>
  "path_basename path =
     rev (takeWhile (\<lambda>c. c \<noteq> CHR ''/'') (dropWhile (\<lambda>c. c = CHR ''/'') (rev path)))"

definition path_extname :: "string \<Rightarrow> string" where
  \<comment> \<open>\<^verbatim>\<open>path.extname\<close> (and the \<^verbatim>\<open>ext\<close> field of \<^verbatim>\<open>path.parse\<close>): from the last dot of the
      base name to its end; empty when there is no dot, when the last dot is the first
      character, and for the base name \<^verbatim>\<open>..\<close>\<close>
  "path_extname path =
     (let base = path_basename path;
          after = rev (takeWhile (\<lambda>c. c \<noteq> CHR ''.'') (rev base))
      in if CHR ''.'' \<notin> set base then []
         else if length base = Suc (length after) then []
         else if base = ''..'' then []
         else CHR ''.'' # after)"

section \<open>Static file server\<close>












section \<open>Build, live reload and watch dispatch\<close>

text \<open>
  The script runs on a single-threaded event loop: a callback runs to its next \<^verbatim>\<open>await\<close>
  without interruption, and other callbacks run while it waits. A state records the
  variables of the script (\<open>buildcnt\<close>, \<open>clients\<close>) and what has been observed of it:
  \<^item> \<open>running\<close>: the calls of \<^verbatim>\<open>esbuild.build\<close> that have not settled yet, in call order,
    each with what the caller of \<^verbatim>\<open>build()\<close> does once it resumes;
  \<^item> \<open>finished\<close>: how many calls of \<^verbatim>\<open>esbuild.build\<close> have settled;
  \<^item> \<open>sends\<close>: the calls of \<^verbatim>\<open>ws.send\<close> made so far, in order;
  \<^item> \<open>closed\<close>: the client sockets that have disconnected or failed;
  \<^item> \<open>uncaught\<close>: an exception has left \<^verbatim>\<open>sendClientMessage\<close>, which nothing catches;
  \<^item> \<open>exited\<close>: \<^verbatim>\<open>process.exit\<close> has been called.
  Console output is not modelled. The build counter is a JavaScript number, exact on the
  integers a counter can reach; it is modelled as an \<^typ>\<open>int\<close>.
\<close>

type_synonym conn = nat

datatype continuation = Return | Broadcast string

record copy_desc =
  copy_from :: string
  copy_to :: string

record settings =
  outdir :: string
  copy :: "copy_desc list"

record state =
  buildcnt :: int
  clients :: "conn list"
  running :: "continuation list"
  finished :: nat
  sends :: "(conn \<times> string) list"
  closed :: "conn list"
  uncaught :: bool
  exited :: bool

record env =
  config :: settings
  cPath :: string
  selfPath :: string
  ws_send :: "conn \<Rightarrow> bool"

text \<open>
  \<^verbatim>\<open>build()\<close> up to its \<^verbatim>\<open>await\<close>: the counter is incremented and the bundler is invoked.
  The argument is what the caller does when the promise of \<^verbatim>\<open>build()\<close> resolves.
\<close>

definition build :: "continuation \<Rightarrow> state \<Rightarrow> state" where
  "build k s = s\<lparr>buildcnt := buildcnt s + 1, running := running s @ [k]\<rparr>"

text \<open>
  \<^verbatim>\<open>clients.forEach(ws => { ws.send(msg) })\<close>. \<open>send_ok ws\<close> tells whether \<^verbatim>\<open>ws.send\<close> returns
  normally on that socket; when it raises, \<^verbatim>\<open>forEach\<close> is left with the exception.
\<close>

fun forEach_send :: "(conn \<Rightarrow> bool) \<Rightarrow> string \<Rightarrow> conn list \<Rightarrow> state \<Rightarrow> state" where
  "forEach_send send_ok msg [] s = s"
| "forEach_send send_ok msg (ws # rest) s =
     (let s' = s\<lparr>sends := sends s @ [(ws, msg)]\<rparr>
      in if send_ok ws then forEach_send send_ok msg rest s'
         else s'\<lparr>uncaught := True\<rparr>)"

definition sendClientMessage :: "(conn \<Rightarrow> bool) \<Rightarrow> string \<Rightarrow> state \<Rightarrow> state" where
  "sendClientMessage send_ok msg s = forEach_send send_ok msg (clients s) s"

text \<open>
  The \<open>i\<close>-th running call of \<^verbatim>\<open>esbuild.build\<close> settles. Whether it resolved or was rejected
  (\<open>ok\<close>) only decides whether the \<^verbatim>\<open>catch\<close> block logs the failure: either way \<^verbatim>\<open>build()\<close>
  returns normally and its caller resumes.
\<close>

definition settle :: "(conn \<Rightarrow> bool) \<Rightarrow> nat \<Rightarrow> bool \<Rightarrow> state \<Rightarrow> state" where
  "settle send_ok i ok s =
     (if i < length (running s) then
        (let s' = s\<lparr>running := take i (running s) @ drop (Suc i) (running s),
                     finished := Suc (finished s)\<rparr>
         in case running s ! i of
              Return \<Rightarrow> s'
            | Broadcast msg \<Rightarrow> sendClientMessage send_ok msg s')
      else s)"

text \<open>The \<^verbatim>\<open>ignore\<close> predicate handed to the file watcher.\<close>

definition ignore :: "string \<Rightarrow> string \<Rightarrow> bool" where
  "ignore cwd targetPath =
     (let targetPath =
            (if startsWith targetPath cwd
             then path_normalize (path_join ''.'' (substring targetPath (length cwd)))
             else targetPath)
      in startsWith targetPath ''bin'' \<or> startsWith targetPath ''node_modules'')"

definition copy_match :: "settings \<Rightarrow> string \<Rightarrow> string \<Rightarrow> bool" where
  \<comment> \<open>the test "one of our copy path ?"; a missing \<^verbatim>\<open>settings.copy\<close> behaves as the empty list\<close>
  "copy_match st cwd targetPath =
     (startsWith targetPath cwd \<and>
      (let pth = path_normalize (''.'' @ substring targetPath (length cwd))
       in list_ex (\<lambda>desc. let from = path_normalize (copy_from desc)
                           in pth = from \<or> startsWith pth from) (copy st)))"

text \<open>The handler of the watcher's \<^verbatim>\<open>all\<close> event, up to its first \<^verbatim>\<open>await\<close>.\<close>

definition on_all :: "env \<Rightarrow> string \<Rightarrow> string \<Rightarrow> state \<Rightarrow> state" where
  "on_all E event targetPath s =
     (if (event = ''change'' \<or> event = ''add'') \<and> copy_match (config E) (cPath E) targetPath
      then build Return s
      else if event = ''change'' then
        (if targetPath = selfPath E then s\<lparr>exited := True\<rparr>
         else
           let ext = path_extname targetPath
           in if ext = ''.svg'' \<or> ext = ''.css'' \<or> ext = ''.scss''
              then build (Broadcast ''reload-css'') s
              else if ext = ''.html'' \<or> ext = ''.ts'' \<or> ext = ''.js'' \<or> ext = ''.jsx''
                      \<or> ext = ''.tsx''
              then build (Broadcast ''reload-js'') s
              else if ext = ''.json''
              then (if path_basename targetPath = ''package.json'' then build Return s else s)
              else s)
      else s)"

text \<open>
  What the event loop delivers: a client connecting, a client socket closing or failing
  (the script registers no handler on the socket), a file system notification (the watcher
  drops it when \<open>ignore\<close> holds, and calls the handler otherwise), and a bundler run
  settling. After \<^verbatim>\<open>process.exit\<close> nothing runs any more.
\<close>

datatype event =
    Connection conn
  | Close conn
  | Watch string string
  | Settled nat bool

fun step :: "env \<Rightarrow> state \<Rightarrow> event \<Rightarrow> state" where
  "step E s ev =
     (if exited s then s
      else case ev of
        Connection ws \<Rightarrow> s\<lparr>clients := clients s @ [ws]\<rparr>
      | Close ws \<Rightarrow> s\<lparr>closed := closed s @ [ws]\<rparr>
      | Watch event targetPath \<Rightarrow>
          (if ignore (cPath E) targetPath then s else on_all E event targetPath s)
      | Settled i ok \<Rightarrow> settle (ws_send E) i ok s)"

definition run :: "env \<Rightarrow> state \<Rightarrow> event list \<Rightarrow> state" where
  "run E s evs = foldl (step E) s evs"

text \<open>The script starts with the counter at 1 and calls \<^verbatim>\<open>build()\<close> once, without waiting.\<close>

definition initial :: state where
  "initial = \<lparr>buildcnt = 1, clients = [], running = [], finished = 0, sends = [],
              closed = [], uncaught = False, exited = False\<rparr>"

definition started :: state where
  "started = build Return initial"

text \<open>Calls of \<^verbatim>\<open>build()\<close> and settlements of the bundler, in any order.\<close>

datatype build_op = Call continuation | Settle nat bool

fun exec :: "(conn \<Rightarrow> bool) \<Rightarrow> state \<Rightarrow> build_op \<Rightarrow> state" where
  "exec send_ok s (Call k) = build k s"
| "exec send_ok s (Settle i ok) = settle send_ok i ok s"

fun is_call :: "build_op \<Rightarrow> bool" where
  "is_call (Call k) = True"
| "is_call (Settle i ok) = False"

section \<open>Auxiliary notions and example data\<close>



text \<open>
  Two projects in \<^verbatim>\<open>/proj\<close>: one with the default output directory and the script at the
  project root, one with output directory \<^verbatim>\<open>dist\<close> and the script in a copied directory.
\<close>

definition env0 :: env where
  "env0 = \<lparr>config = \<lparr>outdir = ''./bin'',
                       copy = [\<lparr>copy_from = ''static'', copy_to = ''assets/static''\<rparr>]\<rparr>,
            cPath = ''/proj'', selfPath = ''/proj/x4build.mjs'', ws_send = (\<lambda>ws. True)\<rparr>"

definition env1 :: env where
  "env1 = \<lparr>config = \<lparr>outdir = ''dist'',
                       copy = [\<lparr>copy_from = ''tools'', copy_to = ''tools''\<rparr>]\<rparr>,
            cPath = ''/proj'', selfPath = ''/proj/tools/x4build.mjs'',
            ws_send = (\<lambda>ws. True)\<rparr>"


section \<open>Path normalization\<close>































section \<open>The static file server stays inside the output directory\<close>







section \<open>Responses of the static file server\<close>



section \<open>Build counter and bundler invocations\<close>

lemma forEach_send_fields:
  "buildcnt (forEach_send send_ok msg wss s) = buildcnt s"
  "running (forEach_send send_ok msg wss s) = running s"
  "finished (forEach_send send_ok msg wss s) = finished s"
  "clients (forEach_send send_ok msg wss s) = clients s"
  "closed (forEach_send send_ok msg wss s) = closed s"
  "exited (forEach_send send_ok msg wss s) = exited s"
  by (induction wss arbitrary: s; simp add: Let_def)+



lemma forEach_send_all:
  "\<forall>ws \<in> set wss. send_ok ws \<Longrightarrow>
     forEach_send send_ok msg wss s = s\<lparr>sends := sends s @ map (\<lambda>ws. (ws, msg)) wss\<rparr>"
  by (induction wss arbitrary: s) (simp_all add: Let_def)

lemma settle_counts:
  "buildcnt (settle send_ok i ok s) = buildcnt s"
  "exited (settle send_ok i ok s) = exited s"
  "clients (settle send_ok i ok s) = clients s"
  by (simp_all add: settle_def Let_def sendClientMessage_def forEach_send_fields
      split: continuation.splits)

lemma settle_balance:
  "int (length (running (settle send_ok i ok s))) + int (finished (settle send_ok i ok s))
     = int (length (running s)) + int (finished s)"
  by (auto simp: settle_def Let_def sendClientMessage_def forEach_send_fields
      split: continuation.splits)

lemma build_fields:
  "buildcnt (build k s) = buildcnt s + 1"
  "running (build k s) = running s @ [k]"
  "finished (build k s) = finished s"
  "clients (build k s) = clients s"
  "sends (build k s) = sends s"
  "exited (build k s) = exited s"
  by (simp_all add: build_def)

text \<open>
  Claim C7. After any sequence of calls of \<^verbatim>\<open>build()\<close> and settlements of the bundler, in any
  order and whether the bundler succeeds or fails, the build counter is its initial value
  plus the number of calls.
\<close>

theorem counter_counts_calls:
  "buildcnt (foldl (exec send_ok) s ops) = buildcnt s + int (length (filter is_call ops))"
proof (induction ops arbitrary: s)
  case Nil
  show ?case by simp
next
  case (Cons op ops)
  show ?case
  proof (cases op)
    case (Call k)
    then show ?thesis using Cons [of "build k s"] by (simp add: build_fields)
  next
    case (Settle i ok)
    then show ?thesis using Cons [of "settle send_ok i ok s"] by (simp add: settle_counts)
  qed
qed

lemma on_all_balance:
  "buildcnt (on_all E event p s) - int (length (running (on_all E event p s)))
      - int (finished (on_all E event p s))
     = buildcnt s - int (length (running s)) - int (finished s)"
  by (simp add: on_all_def Let_def build_fields)

lemma step_balance:
  "buildcnt (step E s ev) - int (length (running (step E s ev))) - int (finished (step E s ev))
     = buildcnt s - int (length (running s)) - int (finished s)"
proof (cases ev)
  case (Watch event p)
  then show ?thesis using on_all_balance [of E event p s] by simp
next
  case (Settled i ok)
  then show ?thesis
    using settle_balance [of "ws_send E" i ok s] by (simp add: settle_counts)
qed simp_all

lemma run_balance:
  "buildcnt (run E s evs) - int (length (running (run E s evs))) - int (finished (run E s evs))
     = buildcnt s - int (length (running s)) - int (finished s)"
  unfolding run_def
proof (induction evs arbitrary: s)
  case Nil
  show ?case by simp
next
  case (Cons ev evs)
  show ?case using Cons [of "step E s ev"] step_balance [of E s ev] by simp
qed

text \<open>
  Claim C1, as amended. Calls of \<^verbatim>\<open>build()\<close> are not serialized: every call invokes the
  bundler at once, whatever is in flight, so that one invocation at most is in flight
  after a call only when none was in flight before it. In every state the script can reach,
  the calls made so far (the counter less its initial 1) are the invocations in flight
  plus those that have settled: no call is queued or coalesced.
\<close>

theorem builds_overlap:
  "running (build k s) = running s @ [k]
   \<and> (length (running (build k s)) \<le> 1) = (running s = [])
   \<and> buildcnt (run E started evs)
       = 1 + int (length (running (run E started evs))) + int (finished (run E started evs))"
proof (intro conjI)
  show "running (build k s) = running s @ [k]" by (simp add: build_def)
  show "(length (running (build k s)) \<le> 1) = (running s = [])" by (simp add: build_def)
  show "buildcnt (run E started evs)
       = 1 + int (length (running (run E started evs))) + int (finished (run E started evs))"
    using run_balance [of E started evs] by (simp add: started_def initial_def build_def)
qed

text \<open>
  A file change that arrives while the startup build is in flight starts a second bundler
  run next to it, and so do two file changes in a row.
\<close>

theorem builds_not_serialized_counterexample:
  "length (running (run env0 started [Watch ''change'' ''/proj/src/app.tsx''])) = 2
   \<and> length (running (run env0 started
        [Settled 0 True, Watch ''change'' ''/proj/src/app.tsx'',
         Watch ''change'' ''/proj/package.json''])) = 2"
  by code_simp

section \<open>Broadcast\<close>




section \<open>Connection registry\<close>

text \<open>
  Claim C3. A connection that has closed is to be removed from the registry. The script
  never removes one: after client 7 connects and disconnects, the next broadcast still
  finds it in \<open>clients\<close> and calls \<^verbatim>\<open>ws.send\<close> on it.
\<close>

theorem closed_client_still_sent:
  "clients (run env0 started [Connection 7, Close 7, Settled 0 True,
              Watch ''change'' ''/proj/src/app.tsx'', Settled 0 True]) = [7]
   \<and> closed (run env0 started [Connection 7, Close 7, Settled 0 True,
              Watch ''change'' ''/proj/src/app.tsx'', Settled 0 True]) = [7]
   \<and> sends (run env0 started [Connection 7, Close 7, Settled 0 True,
              Watch ''change'' ''/proj/src/app.tsx'', Settled 0 True]) = [(7, ''reload-js'')]"
  by code_simp

section \<open>Watch dispatch\<close>

text \<open>
  Claim C5. Paths under the configured output directory are to be ignored. The \<open>ignore\<close>
  predicate tests the fixed prefix \<^verbatim>\<open>bin\<close>, not \<^verbatim>\<open>settings.outdir\<close>: with the output directory
  \<^verbatim>\<open>dist\<close>, a file written there is not ignored and its change starts a build.
\<close>

theorem output_directory_not_ignored:
  "outdir (config env1) = ''dist''
   \<and> \<not> ignore (cPath env1) ''/proj/dist/main.js''
   \<and> step env1 started (Watch ''change'' ''/proj/dist/main.js'')
        = build (Broadcast ''reload-js'') started"
  by code_simp

text \<open>
  Claim C4. For a \<^verbatim>\<open>change\<close> event on a path that is not ignored, is not the script itself
  and matches no copy rule: with extension \<^verbatim>\<open>.css\<close>, \<^verbatim>\<open>.scss\<close> or \<^verbatim>\<open>.svg\<close> (message
  \<^verbatim>\<open>reload-css\<close>), or \<^verbatim>\<open>.html\<close>, \<^verbatim>\<open>.js\<close>, \<^verbatim>\<open>.jsx\<close>, \<^verbatim>\<open>.ts\<close> or \<^verbatim>\<open>.tsx\<close> (message \<^verbatim>\<open>reload-js\<close>),
  the handler calls \<^verbatim>\<open>build()\<close> and sends nothing yet; when that build settles, with success
  or failure, \<^verbatim>\<open>sendClientMessage\<close> runs once with the message, and if no send raises every
  registered client is sent the message exactly once.
\<close>

theorem change_classification:
  assumes "\<not> exited s"
    and "\<not> ignore (cPath E) p"
    and "p \<noteq> selfPath E"
    and "\<not> copy_match (config E) (cPath E) p"
    and "path_extname p \<in> {''.css'', ''.scss'', ''.svg''} \<and> msg = ''reload-css''
         \<or> path_extname p \<in> {''.html'', ''.js'', ''.jsx'', ''.ts'', ''.tsx''} \<and> msg = ''reload-js''"
  shows "step E s (Watch ''change'' p) = build (Broadcast msg) s
    \<and> sends (step E s (Watch ''change'' p)) = sends s
    \<and> step E (step E s (Watch ''change'' p)) (Settled (length (running s)) ok)
        = sendClientMessage (ws_send E) msg
            (s\<lparr>buildcnt := buildcnt s + 1, finished := Suc (finished s)\<rparr>)
    \<and> ((\<forall>ws \<in> set (clients s). ws_send E ws) \<longrightarrow>
          sends (step E (step E s (Watch ''change'' p)) (Settled (length (running s)) ok))
            = sends s @ map (\<lambda>ws. (ws, msg)) (clients s))"
proof -
  have b: "step E s (Watch ''change'' p) = build (Broadcast msg) s"
    using assms by (auto simp: on_all_def Let_def)
  have st: "step E (build (Broadcast msg) s) (Settled (length (running s)) ok)
        = sendClientMessage (ws_send E) msg
            (s\<lparr>buildcnt := buildcnt s + 1, finished := Suc (finished s)\<rparr>)"
    using assms(1) by (simp add: build_def settle_def)
  have "sends (sendClientMessage (ws_send E) msg
            (s\<lparr>buildcnt := buildcnt s + 1, finished := Suc (finished s)\<rparr>))
          = sends s @ map (\<lambda>ws. (ws, msg)) (clients s)"
    if "\<forall>ws \<in> set (clients s). ws_send E ws"
    using that by (simp add: sendClientMessage_def forEach_send_all)
  then show ?thesis unfolding b st by (simp add: build_fields)
qed

theorem change_classification_witness:
  "step env0 (started\<lparr>clients := [1, 2]\<rparr>) (Watch ''change'' ''/proj/styles/app.scss'')
     = build (Broadcast ''reload-css'') (started\<lparr>clients := [1, 2]\<rparr>)
   \<and> sends (run env0 (started\<lparr>clients := [1, 2]\<rparr>)
        [Watch ''change'' ''/proj/styles/app.scss'', Settled 1 True])
     = [(1, ''reload-css''), (2, ''reload-css'')]
   \<and> sends (run env0 (started\<lparr>clients := [1, 2]\<rparr>)
        [Watch ''change'' ''/proj/src/app.tsx'', Settled 1 False])
     = [(1, ''reload-js''), (2, ''reload-js'')]"
proof -
  let ?s = "started\<lparr>clients := [1, 2]\<rparr>"
  have e: "\<not> exited ?s" and n: "length (running ?s) = 1" and c: "clients ?s = [1, 2]"
    and z: "sends ?s = []"
    by (simp_all add: started_def initial_def build_def)
  have i1: "\<not> ignore (cPath env0) ''/proj/styles/app.scss''"
    and i2: "\<not> ignore (cPath env0) ''/proj/src/app.tsx''"
    and m1: "\<not> copy_match (config env0) (cPath env0) ''/proj/styles/app.scss''"
    and m2: "\<not> copy_match (config env0) (cPath env0) ''/proj/src/app.tsx''"
    and x1: "path_extname ''/proj/styles/app.scss'' = ''.scss''"
    and x2: "path_extname ''/proj/src/app.tsx'' = ''.tsx''"
    by code_simp+
  have p1: "''/proj/styles/app.scss'' \<noteq> selfPath env0"
    and p2: "''/proj/src/app.tsx'' \<noteq> selfPath env0"
    and w: "\<forall>ws \<in> set (clients ?s). ws_send env0 ws"
    by (simp_all add: env0_def)
  have h1: "path_extname ''/proj/styles/app.scss'' \<in> {''.css'', ''.scss'', ''.svg''}
              \<and> ''reload-css'' = ''reload-css''
         \<or> path_extname ''/proj/styles/app.scss'' \<in> {''.html'', ''.js'', ''.jsx'', ''.ts'', ''.tsx''}
              \<and> ''reload-css'' = ''reload-js''"
    unfolding x1 by simp
  have h2: "path_extname ''/proj/src/app.tsx'' \<in> {''.css'', ''.scss'', ''.svg''}
              \<and> ''reload-js'' = ''reload-css''
         \<or> path_extname ''/proj/src/app.tsx'' \<in> {''.html'', ''.js'', ''.jsx'', ''.ts'', ''.tsx''}
              \<and> ''reload-js'' = ''reload-js''"
    unfolding x2 by simp
  note c1 = change_classification [OF e i1 p1 m1 h1, of True, unfolded n c z]
  note c2 = change_classification [OF e i2 p2 m2 h2, of False, unfolded n c z]
  have a: "step env0 ?s (Watch ''change'' ''/proj/styles/app.scss'')
             = build (Broadcast ''reload-css'') ?s"
    using c1 by (rule conjunct1)
  note w' = w [unfolded c]
  have b1: "sends (step env0 (step env0 ?s (Watch ''change'' ''/proj/styles/app.scss''))
                    (Settled 1 True)) = [(1, ''reload-css''), (2, ''reload-css'')]"
    using c1 [THEN conjunct2, THEN conjunct2, THEN conjunct2, THEN mp, OF w']
    by (simp del: step.simps)
  have b2: "sends (step env0 (step env0 ?s (Watch ''change'' ''/proj/src/app.tsx''))
                    (Settled 1 False)) = [(1, ''reload-js''), (2, ''reload-js'')]"
    using c2 [THEN conjunct2, THEN conjunct2, THEN conjunct2, THEN mp, OF w']
    by (simp del: step.simps)
  show ?thesis using a b1 b2 by (simp add: run_def del: step.simps)
qed

text \<open>
  Claim C10. An \<^verbatim>\<open>add\<close> event on a path that matches no copy rule changes nothing: no build
  is started and nothing is sent.
\<close>

theorem add_without_copy_rule:
  "\<not> copy_match (config E) (cPath E) p \<Longrightarrow> step E s (Watch ''add'' p) = s"
  by (simp add: on_all_def)

theorem add_without_copy_rule_witness:
  "\<not> copy_match (config env0) (cPath env0) ''/proj/src/new.tsx''
   \<and> \<not> ignore (cPath env0) ''/proj/src/new.tsx''
   \<and> step env0 started (Watch ''add'' ''/proj/src/new.tsx'') = started"
proof -
  have h: "\<not> copy_match (config env0) (cPath env0) ''/proj/src/new.tsx''" by code_simp
  have i: "\<not> ignore (cPath env0) ''/proj/src/new.tsx''" by code_simp
  show ?thesis using add_without_copy_rule [OF h, of started] h i by simp
qed

lemma run_exited: "exited s \<Longrightarrow> run E s evs = s"
  unfolding run_def by (induction evs) simp_all

text \<open>
  Claim C6, as amended. For a \<^verbatim>\<open>change\<close> event on the script's own path, when that path
  matches no copy rule, the process exits at once: no build is started, nothing is sent,
  and nothing runs afterwards. (The copy rules are tested first.)
\<close>

theorem self_change_exits:
  assumes "\<not> exited s"
    and "\<not> ignore (cPath E) (selfPath E)"
    and "\<not> copy_match (config E) (cPath E) (selfPath E)"
  shows "step E s (Watch ''change'' (selfPath E)) = s\<lparr>exited := True\<rparr>
         \<and> run E (step E s (Watch ''change'' (selfPath E))) evs = s\<lparr>exited := True\<rparr>"
proof -
  have "step E s (Watch ''change'' (selfPath E)) = s\<lparr>exited := True\<rparr>"
    using assms by (simp add: on_all_def)
  then show ?thesis by (simp add: run_exited)
qed

theorem self_change_exits_witness:
  "\<not> exited started
   \<and> step env0 started (Watch ''change'' (selfPath env0)) = started\<lparr>exited := True\<rparr>
   \<and> run env0 (step env0 started (Watch ''change'' (selfPath env0)))
        [Watch ''change'' ''/proj/src/app.tsx'', Settled 0 True] = started\<lparr>exited := True\<rparr>"
proof -
  have a: "\<not> exited started" by (simp add: started_def initial_def build_def)
  have b: "\<not> ignore (cPath env0) (selfPath env0)" by code_simp
  have c: "\<not> copy_match (config env0) (cPath env0) (selfPath env0)" by code_simp
  show ?thesis
    by (rule conjI [OF a self_change_exits
          [OF a b c, of "[Watch ''change'' ''/proj/src/app.tsx'', Settled 0 True]"]])
qed

text \<open>
  When the script lies under the source of a copy rule, a change of the script starts a
  build and the process goes on.
\<close>

theorem self_change_counterexample:
  "\<not> ignore (cPath env1) (selfPath env1)
   \<and> step env1 started (Watch ''change'' (selfPath env1)) = build Return started
   \<and> \<not> exited (step env1 started (Watch ''change'' (selfPath env1)))
   \<and> buildcnt (step env1 started (Watch ''change'' (selfPath env1))) = buildcnt started + 1"
proof -
  have i: "\<not> ignore (cPath env1) (selfPath env1)" by code_simp
  have n: "path_normalize (''.'' @ substring ''/proj/tools/x4build.mjs'' (length ''/proj''))
             = ''tools/x4build.mjs''"
    and f: "path_normalize ''tools'' = ''tools''"
    by code_simp+
  have "copy_match \<lparr>outdir = ''dist'', copy = [\<lparr>copy_from = ''tools'', copy_to = ''tools''\<rparr>]\<rparr>
          ''/proj'' ''/proj/tools/x4build.mjs''"
    unfolding copy_match_def Let_def n by (simp add: startsWith_def f)
  then have c: "copy_match (config env1) (cPath env1) (selfPath env1)"
    by (simp add: env1_def)
  have e: "\<not> exited started" by (simp add: started_def initial_def build_def)
  have "step env1 started (Watch ''change'' (selfPath env1)) = build Return started"
    using i c e by (simp add: on_all_def)
  then show ?thesis using i e by (simp add: build_fields)
qed

end
